theory Spec2Isabelle
  imports Complex_Main
begin

section \<open>Numbers, geometry and time mapping (utils.js)\<close>

text \<open>
  JavaScript numbers are modelled as reals: pixel positions, pointer coordinates, sample
  values and durations are finite numbers, and the functions below only compare, add,
  subtract, multiply and divide them. NaN and the infinities are outside the model, as is
  rounding.
\<close>

definition distance :: "real \<Rightarrow> real \<Rightarrow> real \<Rightarrow> real \<Rightarrow> real" where
  "distance x1 y1 x2 y2 =
     (let dx = x2 - x1; dy = y2 - y1 in sqrt (dx * dx + dy * dy))"

definition pixelToSeconds :: "real \<Rightarrow> real \<Rightarrow> real \<Rightarrow> real" where
  "pixelToSeconds px bufferDuration canvasWidth = (px / canvasWidth) * bufferDuration"

definition secondsToPixel :: "real \<Rightarrow> real \<Rightarrow> real \<Rightarrow> real" where
  "secondsToPixel seconds bufferDuration canvasWidth = (seconds / bufferDuration) * canvasWidth"

section \<open>TrimbarsDrawer\<close>

text \<open>
  The canvas is the DOM's: its width and height are unsigned integers. The drawing
  context only receives draw calls and is left out. A trim bar is the object literal of
  the constructor; its field \<open>x\<close> is named \<open>barX\<close> here.
\<close>

datatype color = White | Red

record canvas =
  width :: nat
  height :: nat

record trimBar =
  barX :: real
  color :: color
  selected :: bool
  dragged :: bool

record TrimbarsDrawer =
  canvas :: canvas
  leftTrimBar :: trimBar
  rightTrimBar :: trimBar

record mousePos =
  mouseX :: real
  mouseY :: real

text \<open>\<open>constructor(canvas, leftTrimBarX = 0, rightTrimBarX = null)\<close>\<close>

definition TrimbarsDrawer_new :: "canvas \<Rightarrow> real \<Rightarrow> real option \<Rightarrow> TrimbarsDrawer" where
  "TrimbarsDrawer_new cv leftTrimBarX rightTrimBarX =
     (let rightX = (case rightTrimBarX of Some r \<Rightarrow> r | None \<Rightarrow> real (width cv)) in
      \<lparr> canvas = cv,
        leftTrimBar = \<lparr> barX = leftTrimBarX, color = White, selected = False, dragged = False \<rparr>,
        rightTrimBar = \<lparr> barX = rightX, color = White, selected = False, dragged = False \<rparr> \<rparr>)"

definition highlightLeft :: "TrimbarsDrawer \<Rightarrow> mousePos \<Rightarrow> TrimbarsDrawer" where
  "highlightLeft t m =
     (let distToLeft = distance (mouseX m) (mouseY m) (barX (leftTrimBar t) + 5) 8 in
      if distToLeft < 15 \<and> \<not> selected (rightTrimBar t)
      then t\<lparr>leftTrimBar := (leftTrimBar t)\<lparr>color := Red, selected := True\<rparr>\<rparr>
      else if \<not> dragged (leftTrimBar t)
      then t\<lparr>leftTrimBar := (leftTrimBar t)\<lparr>color := White, selected := False\<rparr>\<rparr>
      else t)"

definition highlightRight :: "TrimbarsDrawer \<Rightarrow> mousePos \<Rightarrow> TrimbarsDrawer" where
  "highlightRight t m =
     (let distToRight = distance (mouseX m) (mouseY m) (barX (rightTrimBar t) - 5) 8 in
      if distToRight < 15 \<and> \<not> selected (leftTrimBar t)
      then t\<lparr>rightTrimBar := (rightTrimBar t)\<lparr>color := Red, selected := True\<rparr>\<rparr>
      else if \<not> dragged (rightTrimBar t)
      then t\<lparr>rightTrimBar := (rightTrimBar t)\<lparr>color := White, selected := False\<rparr>\<rparr>
      else t)"

text \<open>The two statements of \<open>highlightTrimBarsWhenClose\<close>, left bar first.\<close>

definition highlightTrimBarsWhenClose :: "TrimbarsDrawer \<Rightarrow> mousePos \<Rightarrow> TrimbarsDrawer" where
  "highlightTrimBarsWhenClose t m = highlightRight (highlightLeft t m) m"

definition startDrag :: "TrimbarsDrawer \<Rightarrow> TrimbarsDrawer" where
  "startDrag t =
     (let t1 = (if selected (leftTrimBar t)
                then t\<lparr>leftTrimBar := (leftTrimBar t)\<lparr>dragged := True\<rparr>\<rparr> else t)
      in if selected (rightTrimBar t1)
         then t1\<lparr>rightTrimBar := (rightTrimBar t1)\<lparr>dragged := True\<rparr>\<rparr> else t1)"

definition stopDragLeft :: "TrimbarsDrawer \<Rightarrow> TrimbarsDrawer" where
  "stopDragLeft t =
     (if dragged (leftTrimBar t)
      then (let t1 = t\<lparr>leftTrimBar := (leftTrimBar t)\<lparr>dragged := False, selected := False\<rparr>\<rparr>
            in if barX (leftTrimBar t1) > barX (rightTrimBar t1)
               then t1\<lparr>leftTrimBar := (leftTrimBar t1)\<lparr>barX := barX (rightTrimBar t1)\<rparr>\<rparr>
               else t1)
      else t)"

definition stopDragRight :: "TrimbarsDrawer \<Rightarrow> TrimbarsDrawer" where
  "stopDragRight t =
     (if dragged (rightTrimBar t)
      then (let t1 = t\<lparr>rightTrimBar := (rightTrimBar t)\<lparr>dragged := False, selected := False\<rparr>\<rparr>
            in if barX (rightTrimBar t1) < barX (leftTrimBar t1)
               then t1\<lparr>rightTrimBar := (rightTrimBar t1)\<lparr>barX := barX (leftTrimBar t1)\<rparr>\<rparr>
               else t1)
      else t)"

definition stopDrag :: "TrimbarsDrawer \<Rightarrow> TrimbarsDrawer" where
  "stopDrag t = stopDragRight (stopDragLeft t)"

definition moveTrimBars :: "TrimbarsDrawer \<Rightarrow> mousePos \<Rightarrow> TrimbarsDrawer" where
  "moveTrimBars t m =
     (let t1 = highlightTrimBarsWhenClose t m;
          clampedX = max 0 (min (mouseX m) (real (width (canvas t1))));
          t2 = (if dragged (leftTrimBar t1) \<and> clampedX \<le> barX (rightTrimBar t1)
                then t1\<lparr>leftTrimBar := (leftTrimBar t1)\<lparr>barX := clampedX\<rparr>\<rparr> else t1)
      in if dragged (rightTrimBar t2) \<and> clampedX \<ge> barX (leftTrimBar t2)
         then t2\<lparr>rightTrimBar := (rightTrimBar t2)\<lparr>barX := clampedX\<rparr>\<rparr> else t2)"

definition getTrimPositions :: "TrimbarsDrawer \<Rightarrow> real \<times> real" where
  "getTrimPositions t = (barX (leftTrimBar t), barX (rightTrimBar t))"

text \<open>
  \<open>setTrimPositions\<close> has no failing path: it assigns the two clamped values and then
  exchanges them when they are out of order.
\<close>

definition setTrimPositions :: "TrimbarsDrawer \<Rightarrow> real \<Rightarrow> real \<Rightarrow> TrimbarsDrawer" where
  "setTrimPositions t leftX rightX =
     (let t1 = t\<lparr>leftTrimBar := (leftTrimBar t)
                  \<lparr>barX := max 0 (min leftX (real (width (canvas t))))\<rparr>\<rparr>;
          t2 = t1\<lparr>rightTrimBar := (rightTrimBar t1)
                  \<lparr>barX := max 0 (min rightX (real (width (canvas t1))))\<rparr>\<rparr>
      in if barX (leftTrimBar t2) > barX (rightTrimBar t2)
         then t2\<lparr>leftTrimBar := (leftTrimBar t2)\<lparr>barX := barX (rightTrimBar t2)\<rparr>,
                 rightTrimBar := (rightTrimBar t2)\<lparr>barX := barX (leftTrimBar t2)\<rparr>\<rparr>
         else t2)"

definition reset :: "TrimbarsDrawer \<Rightarrow> TrimbarsDrawer" where
  "reset t =
     t\<lparr>leftTrimBar := (leftTrimBar t)\<lparr>barX := 0, selected := False, dragged := False\<rparr>,
       rightTrimBar := (rightTrimBar t)
          \<lparr>barX := real (width (canvas t)), selected := False, dragged := False\<rparr>\<rparr>"

definition isDragging :: "TrimbarsDrawer \<Rightarrow> bool" where
  "isDragging t = (dragged (leftTrimBar t) \<or> dragged (rightTrimBar t))"

text \<open>
  The calls a client can make on a drawer, and a run of them in order: the pointer
  handlers of the GUI call \<open>moveTrimBars\<close>, \<open>startDrag\<close> and \<open>stopDrag\<close>; the other
  methods are public as well.
\<close>

datatype trimCall =
    MoveTrimBars mousePos
  | HighlightTrimBarsWhenClose mousePos
  | StartDrag
  | StopDrag
  | SetTrimPositions real real
  | Reset

fun trimStep :: "TrimbarsDrawer \<Rightarrow> trimCall \<Rightarrow> TrimbarsDrawer" where
  "trimStep t (MoveTrimBars m) = moveTrimBars t m"
| "trimStep t (HighlightTrimBarsWhenClose m) = highlightTrimBarsWhenClose t m"
| "trimStep t StartDrag = startDrag t"
| "trimStep t StopDrag = stopDrag t"
| "trimStep t (SetTrimPositions leftX rightX) = setTrimPositions t leftX rightX"
| "trimStep t Reset = reset t"

definition trimRun :: "TrimbarsDrawer \<Rightarrow> trimCall list \<Rightarrow> TrimbarsDrawer" where
  "trimRun t calls = foldl trimStep t calls"

text \<open>The ordering invariant of the trim region, with the canvas width as surface width.\<close>

definition trimInvariant :: "TrimbarsDrawer \<Rightarrow> bool" where
  "trimInvariant t =
     (0 \<le> barX (leftTrimBar t) \<and> barX (leftTrimBar t) \<le> barX (rightTrimBar t)
      \<and> barX (rightTrimBar t) \<le> real (width (canvas t)))"

section \<open>WaveformDrawer: peak extraction\<close>

text \<open>
  A decoded buffer carries its duration, its sample rate and one array of samples per
  channel. \<open>getChannelData\<close> raises for a channel the buffer does not have, and reading
  a property of \<open>null\<close> raises a TypeError.
\<close>

datatype jsError = TypeError | IndexSizeError

record AudioBuffer =
  audioDuration :: real
  sampleRate :: real
  channels :: "real list list"

definition getChannelData :: "AudioBuffer \<Rightarrow> nat \<Rightarrow> jsError + real list" where
  "getChannelData b ch =
     (if ch < length (channels b) then Inr (channels b ! ch) else Inl IndexSizeError)"

record WaveformDrawer =
  decodedAudioBuffer :: "AudioBuffer option"
  peaks :: "real list"
  displayWidth :: nat
  displayHeight :: nat
  sampleStep :: "nat option"

text \<open>
  The inner loop \<open>for (j = start; j < end && j < totalSamples; j += step)\<close>. It advances
  by \<open>step\<close> whatever its value, so it is a partial function: \<open>None\<close> is a loop that
  never ends.
\<close>

partial_function (option) peakLoop :: "real list \<Rightarrow> nat \<Rightarrow> nat \<Rightarrow> nat \<Rightarrow> real \<Rightarrow> real option" where
  "peakLoop channelData step endIdx j peak =
     (if j < endIdx \<and> j < length channelData
      then peakLoop channelData step endIdx (j + step)
             (if \<bar>channelData ! j\<bar> > peak then \<bar>channelData ! j\<bar> else peak)
      else Some peak)"

text \<open>The outer loop over the pixel columns, pushing one peak per column.\<close>

function peaksLoop :: "real list \<Rightarrow> nat \<Rightarrow> nat \<Rightarrow> nat \<Rightarrow> nat \<Rightarrow> real list \<Rightarrow> real list option" where
  "peaksLoop channelData w sampleSize step i ps =
     (if i < w
      then (let start = i * sampleSize; endIdx = start + sampleSize in
            case peakLoop channelData step endIdx start 0 of
              None \<Rightarrow> None
            | Some peak \<Rightarrow> peaksLoop channelData w sampleSize step (Suc i) (ps @ [peak]))
      else Some ps)"
  by pat_completeness auto
termination
  by (relation "measure (\<lambda>(channelData, w, sampleSize, step, i, ps). w - i)") auto

text \<open>
  \<open>getPeaks\<close>. The sample count and the display width are integers, so the floors are
  integer division and the identity. \<open>this.sampleStep || ...\<close> takes the default for
  \<open>null\<close> and for 0. With a display width of 0 the loop body never runs.
\<close>

definition getPeaks :: "WaveformDrawer \<Rightarrow> (jsError + WaveformDrawer) option" where
  "getPeaks d =
     (case decodedAudioBuffer d of
        None \<Rightarrow> Some (Inl TypeError)
      | Some b \<Rightarrow>
         (case getChannelData b 0 of
            Inl e \<Rightarrow> Some (Inl e)
          | Inr channelData \<Rightarrow>
             (let totalSamples = length channelData;
                  sampleSize = totalSamples div displayWidth d;
                  step = (case sampleStep d of
                            Some st \<Rightarrow> if st \<noteq> 0 then st else max 1 (sampleSize div 10)
                          | None \<Rightarrow> max 1 (sampleSize div 10))
              in map_option (\<lambda>ps. Inr (d\<lparr>peaks := ps\<rparr>))
                   (peaksLoop channelData (displayWidth d) sampleSize step 0 []))))"

definition init :: "WaveformDrawer \<Rightarrow> AudioBuffer \<Rightarrow> canvas \<Rightarrow> nat option
    \<Rightarrow> (jsError + WaveformDrawer) option" where
  "init d b cv st =
     getPeaks (d\<lparr>decodedAudioBuffer := Some b, displayWidth := width cv,
                 displayHeight := height cv, sampleStep := st\<rparr>)"

text \<open>
  The peak of one column in the words of the specification: the maximum absolute value
  of the samples at the indices \<open>start, start + step, start + 2 * step, ...\<close> below
  \<open>endIdx\<close> and below the sample count; 0 when there is no such index.
\<close>

definition columnPeak :: "real list \<Rightarrow> nat \<Rightarrow> nat \<Rightarrow> nat \<Rightarrow> real" where
  "columnPeak channelData step start endIdx =
     Max (insert 0 ((\<lambda>k. \<bar>channelData ! (start + k * step)\<bar>)
            ` {k. start + k * step < min endIdx (length channelData)}))"

section \<open>SoundSample\<close>

record SoundSample =
  url :: string
  name :: string
  index :: int
  decodedBuffer :: "AudioBuffer option"
  leftTrimPosition :: real
  rightTrimPosition :: real
  startOffset :: real
  duration :: real
  loaded :: bool
  loading :: bool
  loadProgress :: real
  error :: "string option"

definition SoundSample_new :: "string \<Rightarrow> string \<Rightarrow> int \<Rightarrow> SoundSample" where
  "SoundSample_new u n i =
     \<lparr> url = u, name = n, index = i, decodedBuffer = None,
       leftTrimPosition = 0, rightTrimPosition = 0, startOffset = 0, duration = 0,
       loaded = False, loading = False, loadProgress = 0, error = None \<rparr>"

text \<open>The state a successful \<open>load\<close> leaves behind, given the buffer the decoder returned.\<close>

definition loadSucceeded :: "SoundSample \<Rightarrow> AudioBuffer \<Rightarrow> SoundSample" where
  "loadSucceeded s b =
     s\<lparr>error := None, decodedBuffer := Some b, duration := audioDuration b,
       loaded := True, loading := False, loadProgress := 100\<rparr>"

definition SoundSample_setTrimPositions :: "SoundSample \<Rightarrow> real \<Rightarrow> real \<Rightarrow> real \<Rightarrow> SoundSample" where
  "SoundSample_setTrimPositions s leftX rightX canvasWidth =
     (let s1 = s\<lparr>leftTrimPosition := leftX, rightTrimPosition := rightX\<rparr> in
      case decodedBuffer s1 of
        None \<Rightarrow> s1
      | Some b \<Rightarrow>
         if canvasWidth > 0
         then (let totalDuration = audioDuration b in
               s1\<lparr>startOffset := (leftX / canvasWidth) * totalDuration,
                  duration := ((rightX - leftX) / canvasWidth) * totalDuration\<rparr>)
         else s1)"

record trimSettings =
  ts_startOffset :: real
  ts_duration :: real
  leftPixel :: real
  rightPixel :: real

definition getTrimSettings :: "SoundSample \<Rightarrow> trimSettings" where
  "getTrimSettings s =
     \<lparr> ts_startOffset = startOffset s, ts_duration = duration s,
       leftPixel = leftTrimPosition s, rightPixel = rightTrimPosition s \<rparr>"

definition isLoaded :: "SoundSample \<Rightarrow> bool" where
  "isLoaded s = loaded s"

text \<open>
  What a call does to the outside: console output, the calls on the audio graph and the
  calls of subscribers. A subscriber is known by its number; \<open>Callback cb i\<close> is the call
  \<open>cb(i)\<close>. \<open>SourceStart w None\<close> is \<open>source.start(w)\<close>, and
  \<open>SourceStart w (Some (offset, dur))\<close> is \<open>source.start(w, offset, dur)\<close>.
\<close>

datatype audioContext = AudioContext

datatype audioNode = ContextDestination | MasterGain

datatype consoleMsg =
    NotLoadedYet string
  | PlayingTrimmed string real real
  | PlayingFull string
  | InvalidIndex int
  | NoSoundLoadedAtPad int
  | TrimUpdated int trimSettings

datatype effect =
    ConsoleWarn consoleMsg
  | ConsoleLog consoleMsg
  | SourceConnect audioNode
  | SourceStart real "(real \<times> real) option"
  | Callback nat int

record bufferSource =
  buffer :: AudioBuffer
  connectedTo :: audioNode

text \<open>
  \<open>play(audioContext, destination = null)\<close> returns the source, or \<open>null\<close> for a sample
  that is not loaded; it raises a TypeError when it reaches \<open>createBufferSource\<close> on a
  context that is \<open>null\<close>.
\<close>

definition play :: "SoundSample \<Rightarrow> audioContext option \<Rightarrow> audioNode option
    \<Rightarrow> jsError + (bufferSource option \<times> effect list)" where
  "play s ctx destination =
     (if \<not> loaded s then Inr (None, [ConsoleWarn (NotLoadedYet (name s))])
      else case decodedBuffer s of
        None \<Rightarrow> Inr (None, [ConsoleWarn (NotLoadedYet (name s))])
      | Some b \<Rightarrow>
         (case ctx of
            None \<Rightarrow> Inl TypeError
          | Some _ \<Rightarrow>
             (let target = (case destination of Some n \<Rightarrow> n | None \<Rightarrow> ContextDestination);
                  source = \<lparr> buffer = b, connectedTo = target \<rparr>
              in if duration s > 0 \<and> duration s < audioDuration b
                 then Inr (Some source,
                        [SourceConnect target,
                         SourceStart 0 (Some (startOffset s, duration s)),
                         ConsoleLog (PlayingTrimmed (name s) (startOffset s)
                                       (startOffset s + duration s))])
                 else Inr (Some source,
                        [SourceConnect target,
                         SourceStart 0 None,
                         ConsoleLog (PlayingFull (name s))]))))"

section \<open>SamplerEngine\<close>

record SamplerEngine =
  audioContext :: "audioContext option"
  samples :: "SoundSample option list"
  padCount :: nat
  progressCallbacks :: "nat list"
  stateCallbacks :: "nat list"
  playCallbacks :: "nat list"
  masterGain :: "audioNode option"
  volume :: real

definition SamplerEngine_new :: "nat \<Rightarrow> SamplerEngine" where
  "SamplerEngine_new n =
     \<lparr> audioContext = None, samples = replicate n None, padCount = n,
       progressCallbacks = [], stateCallbacks = [], playCallbacks = [],
       masterGain = None, volume = 1 \<rparr>"

definition onPlay :: "SamplerEngine \<Rightarrow> nat \<Rightarrow> SamplerEngine" where
  "onPlay e cb = e\<lparr>playCallbacks := playCallbacks e @ [cb]\<rparr>"

definition emitPlay :: "SamplerEngine \<Rightarrow> int \<Rightarrow> effect list" where
  "emitPlay e i = map (\<lambda>cb. Callback cb i) (playCallbacks e)"

text \<open>
  \<open>this.samples[index]\<close>: an index outside the array reads \<open>undefined\<close>, which the
  callers test for truth exactly as they test \<open>null\<close>; both are \<open>None\<close>.
\<close>

definition sampleAt :: "SamplerEngine \<Rightarrow> int \<Rightarrow> SoundSample option" where
  "sampleAt e i =
     (if 0 \<le> i \<and> nat i < length (samples e) then samples e ! nat i else None)"

definition playSound :: "SamplerEngine \<Rightarrow> int \<Rightarrow> jsError + (SamplerEngine \<times> effect list)" where
  "playSound e i =
     (if i < 0 \<or> i \<ge> int (padCount e) then Inr (e, [ConsoleWarn (InvalidIndex i)])
      else case sampleAt e i of
        None \<Rightarrow> Inr (e, [ConsoleWarn (NoSoundLoadedAtPad i)])
      | Some s \<Rightarrow>
         if \<not> isLoaded s then Inr (e, [ConsoleWarn (NoSoundLoadedAtPad i)])
         else (case play s (audioContext e) (masterGain e) of
                 Inl err \<Rightarrow> Inl err
               | Inr (source, effects) \<Rightarrow> Inr (e, effects @ emitPlay e i)))"

definition updateTrimBars :: "SamplerEngine \<Rightarrow> int \<Rightarrow> real \<Rightarrow> real \<Rightarrow> real
    \<Rightarrow> SamplerEngine \<times> effect list" where
  "updateTrimBars e i leftX rightX canvasWidth =
     (case sampleAt e i of
        None \<Rightarrow> (e, [])
      | Some s \<Rightarrow>
         if isLoaded s
         then (let s' = SoundSample_setTrimPositions s leftX rightX canvasWidth in
               (e\<lparr>samples := (samples e)[nat i := Some s']\<rparr>,
                [ConsoleLog (TrimUpdated i (getTrimSettings s'))]))
         else (e, []))"

section \<open>Hover state and example states\<close>

text \<open>At most one of the two bars is selected (shown red, the hover state).\<close>

definition atMostOneSelected :: "TrimbarsDrawer \<Rightarrow> bool" where
  "atMostOneSelected t = (\<not> (selected (leftTrimBar t) \<and> selected (rightTrimBar t)))"

text \<open>
  An 800 pixel wide surface with the left bar at 100, being dragged, and the right bar
  at 300.
\<close>

definition dragExample :: TrimbarsDrawer where
  "dragExample =
     \<lparr> canvas = \<lparr>width = 800, height = 100\<rparr>,
       leftTrimBar = \<lparr>barX = 100, color = Red, selected = True, dragged = True\<rparr>,
       rightTrimBar = \<lparr>barX = 300, color = White, selected = False, dragged = False\<rparr> \<rparr>"

text \<open>Two bars ten pixels apart: their grab points, at x + 5 and x - 5, coincide.\<close>

definition nearBothExample :: TrimbarsDrawer where
  "nearBothExample = TrimbarsDrawer_new \<lparr>width = 800, height = 100\<rparr> 100 (Some 110)"

section \<open>Example samples and engines\<close>

text \<open>A sample whose load succeeded with a buffer of four seconds.\<close>

definition fourSecondSample :: SoundSample where
  "fourSecondSample =
     loadSucceeded (SoundSample_new ''kick.wav'' ''Kick'' 0)
       \<lparr>audioDuration = 4, sampleRate = 44100, channels = [[0, 1/2, -1, 1/4]]\<rparr>"

text \<open>The effects of a call of \<open>play\<close>; none when it raised.\<close>

definition playEffects :: "jsError + (bufferSource option \<times> effect list) \<Rightarrow> effect list" where
  "playEffects r = (case r of Inl _ \<Rightarrow> [] | Inr (_, effects) \<Rightarrow> effects)"

text \<open>A sample whose load succeeded with a buffer of ten seconds.\<close>

definition tenSecondSample :: SoundSample where
  "tenSecondSample =
     loadSucceeded (SoundSample_new ''snare.wav'' ''Snare'' 1)
       \<lparr>audioDuration = 10, sampleRate = 44100, channels = [[0, 1/2, -1, 1/4]]\<rparr>"

text \<open>
  An engine of 16 pads with one play subscriber: pad 2 holds a loaded sample, pad 3 a
  sample that is still loading, and the other pads are empty.
\<close>

definition exampleEngine :: SamplerEngine where
  "exampleEngine =
     (onPlay (SamplerEngine_new 16) 7)
       \<lparr>audioContext := Some AudioContext, masterGain := Some MasterGain,
        samples := (replicate 16 None)
          [2 := Some tenSecondSample,
           3 := Some ((SoundSample_new ''hat.wav'' ''Hat'' 3)\<lparr>loading := True\<rparr>)]\<rparr>"

text \<open>A drawer two pixels wide over a buffer of four samples.\<close>

definition exampleBuffer :: AudioBuffer where
  "exampleBuffer = \<lparr>audioDuration = 4, sampleRate = 44100, channels = [[0, 1/2, -1, 1/4]]\<rparr>"

definition exampleDrawer :: WaveformDrawer where
  "exampleDrawer =
     \<lparr> decodedAudioBuffer = Some exampleBuffer, peaks = [], displayWidth = 2,
       displayHeight = 100, sampleStep = None \<rparr>"

declare peaksLoop.simps [simp del]

section \<open>Programmatic positions\<close>

lemma clamp_bounds: "0 \<le> max 0 (min v (real n)) \<and> max 0 (min v (real n)) \<le> real n"
  by (simp add: max_def min_def)

lemma setTrimPositions_fields:
  assumes "max 0 (min leftX (real (width (canvas t)))) = cl"
    and "max 0 (min rightX (real (width (canvas t)))) = cr"
  shows "setTrimPositions t leftX rightX =
     (if cl > cr
      then t\<lparr>leftTrimBar := (leftTrimBar t)\<lparr>barX := cr\<rparr>,
             rightTrimBar := (rightTrimBar t)\<lparr>barX := cl\<rparr>\<rparr>
      else t\<lparr>leftTrimBar := (leftTrimBar t)\<lparr>barX := cl\<rparr>,
             rightTrimBar := (rightTrimBar t)\<lparr>barX := cr\<rparr>\<rparr>)"
  unfolding setTrimPositions_def Let_def by (simp add: assms)

text \<open>
  C4. For every pair of arguments, \<open>setTrimPositions\<close> stores the smaller of the two
  clamped values as the left position and the larger as the right position (clamp to
  the surface width, then swap when out of order), so the left position is at most the
  right one and both lie between 0 and the surface width; nothing else of the drawer
  changes, and the operation is a total function with no error result.
\<close>

theorem setTrimPositions_clamps_and_orders:
  "(let cl = max 0 (min leftX (real (width (canvas t))));
        cr = max 0 (min rightX (real (width (canvas t))));
        t' = setTrimPositions t leftX rightX
    in barX (leftTrimBar t') = (if cl > cr then cr else cl)
     \<and> barX (rightTrimBar t') = (if cl > cr then cl else cr)
     \<and> 0 \<le> barX (leftTrimBar t')
     \<and> barX (leftTrimBar t') \<le> barX (rightTrimBar t')
     \<and> barX (rightTrimBar t') \<le> real (width (canvas t'))
     \<and> canvas t' = canvas t
     \<and> selected (leftTrimBar t') = selected (leftTrimBar t)
     \<and> dragged (leftTrimBar t') = dragged (leftTrimBar t)
     \<and> selected (rightTrimBar t') = selected (rightTrimBar t)
     \<and> dragged (rightTrimBar t') = dragged (rightTrimBar t))"
proof -
  define cl where "cl = max 0 (min leftX (real (width (canvas t))))"
  define cr where "cr = max 0 (min rightX (real (width (canvas t))))"
  have bl: "0 \<le> cl" "cl \<le> real (width (canvas t))"
    unfolding cl_def using clamp_bounds by blast+
  have br: "0 \<le> cr" "cr \<le> real (width (canvas t))"
    unfolding cr_def using clamp_bounds by blast+
  note eq = setTrimPositions_fields [OF cl_def [symmetric] cr_def [symmetric]]
  show ?thesis
    unfolding Let_def cl_def [symmetric] cr_def [symmetric] eq
    using bl br by (cases "cl > cr") simp_all
qed

section \<open>The ordering invariant\<close>

lemma highlightLeft_frame:
  "canvas (highlightLeft t m) = canvas t"
  "barX (leftTrimBar (highlightLeft t m)) = barX (leftTrimBar t)"
  "dragged (leftTrimBar (highlightLeft t m)) = dragged (leftTrimBar t)"
  "rightTrimBar (highlightLeft t m) = rightTrimBar t"
  by (simp_all add: highlightLeft_def Let_def)

lemma highlightRight_frame:
  "canvas (highlightRight t m) = canvas t"
  "barX (rightTrimBar (highlightRight t m)) = barX (rightTrimBar t)"
  "dragged (rightTrimBar (highlightRight t m)) = dragged (rightTrimBar t)"
  "leftTrimBar (highlightRight t m) = leftTrimBar t"
  by (simp_all add: highlightRight_def Let_def)

lemma highlight_frame:
  "canvas (highlightTrimBarsWhenClose t m) = canvas t"
  "barX (leftTrimBar (highlightTrimBarsWhenClose t m)) = barX (leftTrimBar t)"
  "barX (rightTrimBar (highlightTrimBarsWhenClose t m)) = barX (rightTrimBar t)"
  "dragged (leftTrimBar (highlightTrimBarsWhenClose t m)) = dragged (leftTrimBar t)"
  "dragged (rightTrimBar (highlightTrimBarsWhenClose t m)) = dragged (rightTrimBar t)"
  by (simp_all add: highlightTrimBarsWhenClose_def highlightLeft_frame highlightRight_frame)

lemma trimInvariant_new: "trimInvariant (TrimbarsDrawer_new cv 0 None)"
  by (simp add: trimInvariant_def TrimbarsDrawer_new_def)

lemma trimInvariant_highlight:
  "trimInvariant t \<Longrightarrow> trimInvariant (highlightTrimBarsWhenClose t m)"
  by (simp add: trimInvariant_def highlight_frame)

lemma trimInvariant_startDrag: "trimInvariant t \<Longrightarrow> trimInvariant (startDrag t)"
  by (simp add: trimInvariant_def startDrag_def Let_def)

lemma trimInvariant_stopDrag: "trimInvariant t \<Longrightarrow> trimInvariant (stopDrag t)"
  by (simp add: trimInvariant_def stopDrag_def stopDragLeft_def stopDragRight_def Let_def)

lemma moveTrimBars_fields:
  assumes "max 0 (min (mouseX m) (real (width (canvas t)))) = c"
    and "highlightTrimBarsWhenClose t m = t1"
  shows "moveTrimBars t m =
     (let t2 = (if dragged (leftTrimBar t1) \<and> c \<le> barX (rightTrimBar t1)
                then t1\<lparr>leftTrimBar := (leftTrimBar t1)\<lparr>barX := c\<rparr>\<rparr> else t1)
      in if dragged (rightTrimBar t2) \<and> c \<ge> barX (leftTrimBar t2)
         then t2\<lparr>rightTrimBar := (rightTrimBar t2)\<lparr>barX := c\<rparr>\<rparr> else t2)"
  using assms highlight_frame(1) [of t m] unfolding moveTrimBars_def Let_def by simp

lemma trimInvariant_moveTrimBars:
  assumes "trimInvariant t"
  shows "trimInvariant (moveTrimBars t m)"
proof -
  define c where "c = max 0 (min (mouseX m) (real (width (canvas t))))"
  define t1 where "t1 = highlightTrimBarsWhenClose t m"
  have c: "0 \<le> c" "c \<le> real (width (canvas t))"
    unfolding c_def using clamp_bounds by blast+
  have t1: "trimInvariant t1" "canvas t1 = canvas t"
    unfolding t1_def using assms by (simp_all add: trimInvariant_highlight highlight_frame)
  show ?thesis
    unfolding moveTrimBars_fields [OF c_def [symmetric] t1_def [symmetric]]
    using c t1 by (simp add: trimInvariant_def Let_def)
qed

lemma trimInvariant_setTrimPositions: "trimInvariant (setTrimPositions t leftX rightX)"
proof -
  define cl where "cl = max 0 (min leftX (real (width (canvas t))))"
  define cr where "cr = max 0 (min rightX (real (width (canvas t))))"
  have bl: "0 \<le> cl" "cl \<le> real (width (canvas t))"
    unfolding cl_def using clamp_bounds by blast+
  have br: "0 \<le> cr" "cr \<le> real (width (canvas t))"
    unfolding cr_def using clamp_bounds by blast+
  show ?thesis
    unfolding setTrimPositions_fields [OF cl_def [symmetric] cr_def [symmetric]]
    using bl br by (simp add: trimInvariant_def)
qed

lemma trimInvariant_reset: "trimInvariant (reset t)"
  by (simp add: trimInvariant_def reset_def)

lemma trimInvariant_trimStep: "trimInvariant t \<Longrightarrow> trimInvariant (trimStep t c)"
  by (cases c)
    (simp_all add: trimInvariant_moveTrimBars trimInvariant_highlight trimInvariant_startDrag
      trimInvariant_stopDrag trimInvariant_setTrimPositions trimInvariant_reset)

lemma trimInvariant_foldl:
  "trimInvariant t \<Longrightarrow> trimInvariant (foldl trimStep t calls)"
  by (induction calls arbitrary: t) (simp_all add: trimInvariant_trimStep)

text \<open>
  C1. Starting from the drawer the constructor builds by default (left position 0, right
  position the canvas width, no bar selected or dragged), after every sequence of calls
  of \<open>moveTrimBars\<close>, \<open>highlightTrimBarsWhenClose\<close>, \<open>startDrag\<close>, \<open>stopDrag\<close>,
  \<open>setTrimPositions\<close> and \<open>reset\<close>, with any arguments, the positions satisfy
  \<open>0 \<le> left \<le> right \<le> canvas width\<close>. Every prefix of a sequence is a sequence, so
  the invariant holds after each call returns.
\<close>

theorem trim_invariant_preserved:
  "trimInvariant (trimRun (TrimbarsDrawer_new cv 0 None) calls)"
  unfolding trimRun_def by (rule trimInvariant_foldl [OF trimInvariant_new])


section \<open>Hover\<close>

lemma sqrt_less_15: "sqrt a < 15 \<longleftrightarrow> a < 225"
proof -
  have e: "sqrt 225 = 15"
    using real_sqrt_abs2 [of 15] by simp
  show ?thesis using real_sqrt_less_iff [of a 225] by (simp add: e)
qed

lemma distance_less_15:
  "distance x1 y1 x2 y2 < 15 \<longleftrightarrow> (x2 - x1) * (x2 - x1) + (y2 - y1) * (y2 - y1) < 225"
  by (simp add: distance_def Let_def sqrt_less_15)

lemma atMostOneSelected_new: "atMostOneSelected (TrimbarsDrawer_new cv leftX rightX)"
  by (simp add: atMostOneSelected_def TrimbarsDrawer_new_def Let_def)

lemma atMostOneSelected_highlight:
  "atMostOneSelected t \<Longrightarrow> atMostOneSelected (highlightTrimBarsWhenClose t m)"
  by (simp add: atMostOneSelected_def highlightTrimBarsWhenClose_def highlightLeft_def
      highlightRight_def Let_def)

lemma moveTrimBars_flags:
  "selected (leftTrimBar (moveTrimBars t m)) = selected (leftTrimBar (highlightTrimBarsWhenClose t m))"
  "selected (rightTrimBar (moveTrimBars t m)) = selected (rightTrimBar (highlightTrimBarsWhenClose t m))"
  by (simp_all add: moveTrimBars_def Let_def)

lemma atMostOneSelected_moveTrimBars:
  "atMostOneSelected t \<Longrightarrow> atMostOneSelected (moveTrimBars t m)"
  using atMostOneSelected_highlight [of t m]
  by (simp add: atMostOneSelected_def moveTrimBars_flags)

lemma atMostOneSelected_startDrag: "atMostOneSelected t \<Longrightarrow> atMostOneSelected (startDrag t)"
  by (simp add: atMostOneSelected_def startDrag_def Let_def)

lemma atMostOneSelected_stopDrag: "atMostOneSelected t \<Longrightarrow> atMostOneSelected (stopDrag t)"
  by (simp add: atMostOneSelected_def stopDrag_def stopDragLeft_def stopDragRight_def Let_def)

lemma setTrimPositions_flags:
  "selected (leftTrimBar (setTrimPositions t leftX rightX)) = selected (leftTrimBar t)"
  "selected (rightTrimBar (setTrimPositions t leftX rightX)) = selected (rightTrimBar t)"
  by (simp_all add: setTrimPositions_fields [OF refl refl])

lemma atMostOneSelected_setTrimPositions:
  "atMostOneSelected t \<Longrightarrow> atMostOneSelected (setTrimPositions t leftX rightX)"
  by (simp add: atMostOneSelected_def setTrimPositions_flags)

lemma atMostOneSelected_reset: "atMostOneSelected (reset t)"
  by (simp add: atMostOneSelected_def reset_def)

lemma atMostOneSelected_trimStep: "atMostOneSelected t \<Longrightarrow> atMostOneSelected (trimStep t c)"
  by (cases c)
    (simp_all add: atMostOneSelected_moveTrimBars atMostOneSelected_highlight
      atMostOneSelected_startDrag atMostOneSelected_stopDrag
      atMostOneSelected_setTrimPositions atMostOneSelected_reset)

lemma atMostOneSelected_foldl:
  "atMostOneSelected t \<Longrightarrow> atMostOneSelected (foldl trimStep t calls)"
  by (induction calls arbitrary: t) (simp_all add: atMostOneSelected_trimStep)

lemma atMostOneSelected_trimRun:
  "atMostOneSelected (trimRun (TrimbarsDrawer_new cv leftX rightX) calls)"
  unfolding trimRun_def by (rule atMostOneSelected_foldl [OF atMostOneSelected_new])

lemma highlight_both_close:
  assumes "distance (mouseX m) (mouseY m) (barX (leftTrimBar t) + 5) 8 < 15"
    and "distance (mouseX m) (mouseY m) (barX (rightTrimBar t) - 5) 8 < 15"
    and "\<not> selected (leftTrimBar t)" and "\<not> selected (rightTrimBar t)"
  shows "selected (leftTrimBar (highlightTrimBarsWhenClose t m))
       \<and> \<not> selected (rightTrimBar (highlightTrimBarsWhenClose t m))"
  using assms
  by (simp add: highlightTrimBarsWhenClose_def highlightLeft_def highlightRight_def Let_def)

text \<open>
  C5. In every state the drawer can reach from its constructor (with any initial
  positions) by calls of its methods, after \<open>highlightTrimBarsWhenClose\<close> at most one bar
  is selected, never both. And in any state where neither bar is selected, a pointer
  closer than 15 to both grab points selects the left bar, which is tested first, and
  leaves the right bar unselected.
\<close>

theorem hover_mutually_exclusive:
  "\<not> (selected (leftTrimBar (highlightTrimBarsWhenClose
          (trimRun (TrimbarsDrawer_new cv leftX rightX) calls) m))
      \<and> selected (rightTrimBar (highlightTrimBarsWhenClose
          (trimRun (TrimbarsDrawer_new cv leftX rightX) calls) m)))
   \<and> (distance (mouseX m) (mouseY m) (barX (leftTrimBar t) + 5) 8 < 15
      \<and> distance (mouseX m) (mouseY m) (barX (rightTrimBar t) - 5) 8 < 15
      \<and> \<not> selected (leftTrimBar t) \<and> \<not> selected (rightTrimBar t)
      \<longrightarrow> selected (leftTrimBar (highlightTrimBarsWhenClose t m))
        \<and> \<not> selected (rightTrimBar (highlightTrimBarsWhenClose t m)))"
proof -
  have "atMostOneSelected (highlightTrimBarsWhenClose
          (trimRun (TrimbarsDrawer_new cv leftX rightX) calls) m)"
    by (rule atMostOneSelected_highlight [OF atMostOneSelected_trimRun])
  then show ?thesis
    using highlight_both_close [of m t] by (simp add: atMostOneSelected_def)
qed


theorem hover_mutually_exclusive_witness:
  "distance 105 8 (barX (leftTrimBar nearBothExample) + 5) 8 < 15
   \<and> distance 105 8 (barX (rightTrimBar nearBothExample) - 5) 8 < 15
   \<and> \<not> selected (leftTrimBar nearBothExample) \<and> \<not> selected (rightTrimBar nearBothExample)
   \<and> selected (leftTrimBar (highlightTrimBarsWhenClose nearBothExample \<lparr>mouseX = 105, mouseY = 8\<rparr>))
   \<and> \<not> selected (rightTrimBar (highlightTrimBarsWhenClose nearBothExample \<lparr>mouseX = 105, mouseY = 8\<rparr>))"
proof -
  have h: "distance (mouseX \<lparr>mouseX = 105, mouseY = 8\<rparr>) (mouseY \<lparr>mouseX = 105, mouseY = 8\<rparr>)
             (barX (leftTrimBar nearBothExample) + 5) 8 < 15
         \<and> distance (mouseX \<lparr>mouseX = 105, mouseY = 8\<rparr>) (mouseY \<lparr>mouseX = 105, mouseY = 8\<rparr>)
             (barX (rightTrimBar nearBothExample) - 5) 8 < 15
         \<and> \<not> selected (leftTrimBar nearBothExample) \<and> \<not> selected (rightTrimBar nearBothExample)"
    by (simp add: nearBothExample_def TrimbarsDrawer_new_def distance_less_15)
  from hover_mutually_exclusive [of "\<lparr>width = 800, height = 100\<rparr>" 100 "Some 110" "[]"
      "\<lparr>mouseX = 105, mouseY = 8\<rparr>" nearBothExample] h
  show ?thesis by simp
qed


section \<open>Dragging past the other bar\<close>

lemmas trim_eval = trimRun_def moveTrimBars_def highlightTrimBarsWhenClose_def highlightLeft_def
  highlightRight_def startDrag_def stopDrag_def stopDragLeft_def stopDragRight_def
  TrimbarsDrawer_new_def distance_less_15 Let_def

lemma dragExample_reachable:
  "dragExample =
     trimRun (TrimbarsDrawer_new \<lparr>width = 800, height = 100\<rparr> 0 None)
       [MoveTrimBars \<lparr>mouseX = 5, mouseY = 8\<rparr>, StartDrag,
        MoveTrimBars \<lparr>mouseX = 100, mouseY = 8\<rparr>, StopDrag,
        MoveTrimBars \<lparr>mouseX = 795, mouseY = 8\<rparr>, StartDrag,
        MoveTrimBars \<lparr>mouseX = 300, mouseY = 8\<rparr>, StopDrag,
        MoveTrimBars \<lparr>mouseX = 105, mouseY = 8\<rparr>, StartDrag]"
  by (simp add: dragExample_def trim_eval)

text \<open>
  C2, as stated, fails: with the surface 800 wide, the right bar at 300 and the left bar
  at 100 and being dragged, a pointer move to x = 500 leaves the left bar at 100, not at
  300, and so does the release that follows.
\<close>

theorem drag_past_right_counterexample:
  "width (canvas dragExample) = 800 \<and> barX (rightTrimBar dragExample) = 300
   \<and> dragged (leftTrimBar dragExample)
   \<and> barX (leftTrimBar (moveTrimBars dragExample \<lparr>mouseX = 500, mouseY = 8\<rparr>)) = 100
   \<and> barX (leftTrimBar (stopDrag (moveTrimBars dragExample \<lparr>mouseX = 500, mouseY = 8\<rparr>))) = 100
   \<and> barX (rightTrimBar (stopDrag (moveTrimBars dragExample \<lparr>mouseX = 500, mouseY = 8\<rparr>))) = 300
   \<and> barX (leftTrimBar (stopDrag (moveTrimBars dragExample \<lparr>mouseX = 500, mouseY = 8\<rparr>))) \<noteq> 300"
  by (simp add: dragExample_def trim_eval)

text \<open>
  C2, amended. With the surface 800 wide, the right bar at 300 and not dragged, and the
  left bar being dragged at a position of at most 300, a pointer move to x = 500 is
  rejected: the left bar keeps its position, which stays at most 300, and the right bar
  stays at 300. The release that follows ends the drag and again changes neither position.
\<close>

theorem drag_past_right_rejected:
  assumes "width (canvas t) = 800" and "barX (rightTrimBar t) = 300"
    and "dragged (leftTrimBar t)" and "\<not> dragged (rightTrimBar t)"
    and "barX (leftTrimBar t) \<le> 300" and "mouseX m = 500"
  shows "barX (leftTrimBar (moveTrimBars t m)) = barX (leftTrimBar t)
       \<and> barX (leftTrimBar (moveTrimBars t m)) \<le> 300
       \<and> barX (rightTrimBar (moveTrimBars t m)) = 300
       \<and> barX (leftTrimBar (stopDrag (moveTrimBars t m))) = barX (leftTrimBar t)
       \<and> barX (rightTrimBar (stopDrag (moveTrimBars t m))) = 300
       \<and> \<not> dragged (leftTrimBar (stopDrag (moveTrimBars t m)))
       \<and> \<not> selected (leftTrimBar (stopDrag (moveTrimBars t m)))"
proof -
  define t1 where "t1 = highlightTrimBarsWhenClose t m"
  have c: "max 0 (min (mouseX m) (real (width (canvas t)))) = 500"
    using assms by simp
  have t1: "barX (leftTrimBar t1) = barX (leftTrimBar t)" "barX (rightTrimBar t1) = 300"
    "dragged (leftTrimBar t1)" "\<not> dragged (rightTrimBar t1)"
    unfolding t1_def using assms by (simp_all add: highlight_frame)
  have mv: "moveTrimBars t m = t1"
    unfolding moveTrimBars_fields [OF c t1_def [symmetric]] using t1 by (simp add: Let_def)
  show ?thesis
    unfolding mv using t1 assms
    by (simp add: stopDrag_def stopDragLeft_def stopDragRight_def Let_def)
qed

theorem drag_past_right_rejected_witness:
  "width (canvas dragExample) = 800 \<and> barX (rightTrimBar dragExample) = 300
   \<and> dragged (leftTrimBar dragExample) \<and> \<not> dragged (rightTrimBar dragExample)
   \<and> barX (leftTrimBar dragExample) \<le> 300
   \<and> mouseX \<lparr>mouseX = 500, mouseY = 8\<rparr> = 500
   \<and> barX (leftTrimBar (stopDrag (moveTrimBars dragExample \<lparr>mouseX = 500, mouseY = 8\<rparr>)))
       = barX (leftTrimBar dragExample)
   \<and> barX (rightTrimBar (stopDrag (moveTrimBars dragExample \<lparr>mouseX = 500, mouseY = 8\<rparr>))) = 300"
proof -
  have h: "width (canvas dragExample) = 800" "barX (rightTrimBar dragExample) = 300"
    "dragged (leftTrimBar dragExample)" "\<not> dragged (rightTrimBar dragExample)"
    "barX (leftTrimBar dragExample) \<le> 300" "mouseX \<lparr>mouseX = 500, mouseY = 8\<rparr> = 500"
    by (simp_all add: dragExample_def)
  from drag_past_right_rejected [OF h] h show ?thesis by blast
qed

section \<open>The playback window\<close>

text \<open>
  C6. For a sample that holds a decoded buffer of duration d and a canvas width w > 0,
  \<open>setTrimPositions(leftX, rightX, w)\<close> sets the start offset to
  \<open>pixelToSeconds leftX d w = (leftX / w) * d\<close> and the duration to
  \<open>pixelToSeconds rightX d w\<close> minus that offset, which is \<open>((rightX - leftX) / w) * d\<close>,
  and records the two pixel positions. For a 4 second buffer, an 800 pixel surface and
  the positions 200 and 600, the start offset is 1 and the duration is 2.
\<close>

theorem trim_window_from_positions:
  assumes "decodedBuffer s = Some b" and "canvasWidth > 0"
  shows "startOffset (SoundSample_setTrimPositions s leftX rightX canvasWidth)
           = pixelToSeconds leftX (audioDuration b) canvasWidth
       \<and> startOffset (SoundSample_setTrimPositions s leftX rightX canvasWidth)
           = (leftX / canvasWidth) * audioDuration b
       \<and> duration (SoundSample_setTrimPositions s leftX rightX canvasWidth)
           = pixelToSeconds rightX (audioDuration b) canvasWidth
             - startOffset (SoundSample_setTrimPositions s leftX rightX canvasWidth)
       \<and> duration (SoundSample_setTrimPositions s leftX rightX canvasWidth)
           = ((rightX - leftX) / canvasWidth) * audioDuration b
       \<and> leftTrimPosition (SoundSample_setTrimPositions s leftX rightX canvasWidth) = leftX
       \<and> rightTrimPosition (SoundSample_setTrimPositions s leftX rightX canvasWidth) = rightX
       \<and> (audioDuration b = 4 \<longrightarrow>
            startOffset (SoundSample_setTrimPositions s 200 600 800) = 1
          \<and> duration (SoundSample_setTrimPositions s 200 600 800) = 2)"
  using assms
  by (simp add: SoundSample_setTrimPositions_def pixelToSeconds_def Let_def
      diff_divide_distrib left_diff_distrib)

theorem trim_window_from_positions_witness:
  "decodedBuffer fourSecondSample
      = Some \<lparr>audioDuration = 4, sampleRate = 44100, channels = [[0, 1/2, -1, 1/4]]\<rparr>
   \<and> (800::real) > 0
   \<and> audioDuration \<lparr>audioDuration = 4, sampleRate = 44100, channels = [[0, 1/2, -1, 1/4]]\<rparr> = 4
   \<and> startOffset (SoundSample_setTrimPositions fourSecondSample 200 600 800) = 1
   \<and> duration (SoundSample_setTrimPositions fourSecondSample 200 600 800) = 2"
proof -
  have h: "decodedBuffer fourSecondSample
      = Some \<lparr>audioDuration = 4, sampleRate = 44100, channels = [[0, 1/2, -1, 1/4]]\<rparr>"
    by (simp add: fourSecondSample_def loadSucceeded_def SoundSample_new_def)
  have w: "(800::real) > 0" by simp
  from trim_window_from_positions [OF h w, of 200 600] h show ?thesis by simp
qed

section \<open>Round trip of the time mapping\<close>

text \<open>
  C8. For every x with \<open>0 \<le> x \<le> w\<close>, every duration d > 0 and every width w > 0,
  converting x to seconds and back gives x, exactly over the reals.
\<close>

theorem roundtrip_pixel_seconds:
  assumes "0 \<le> px" and "px \<le> w" and "d > 0" and "w > 0"
  shows "secondsToPixel (pixelToSeconds px d w) d w = px"
  using assms by (simp add: secondsToPixel_def pixelToSeconds_def)

theorem roundtrip_pixel_seconds_witness:
  "(0::real) \<le> 200 \<and> (200::real) \<le> 800 \<and> (4::real) > 0 \<and> (800::real) > 0
   \<and> secondsToPixel (pixelToSeconds 200 4 800) 4 800 = 200"
proof -
  have h: "(0::real) \<le> 200" "(200::real) \<le> 800" "(4::real) > 0" "(800::real) > 0"
    by simp_all
  from roundtrip_pixel_seconds [OF h] h show ?thesis by simp
qed

section \<open>Playing the full buffer\<close>

lemma play_loaded:
  assumes "loaded s" and "decodedBuffer s = Some b"
  shows "play s (Some c) dest =
     (let target = (case dest of Some n \<Rightarrow> n | None \<Rightarrow> ContextDestination) in
      Inr (Some \<lparr>buffer = b, connectedTo = target\<rparr>,
        if duration s > 0 \<and> duration s < audioDuration b
        then [SourceConnect target, SourceStart 0 (Some (startOffset s, duration s)),
              ConsoleLog (PlayingTrimmed (name s) (startOffset s) (startOffset s + duration s))]
        else [SourceConnect target, SourceStart 0 None, ConsoleLog (PlayingFull (name s))]))"
  using assms by (simp add: play_def Let_def)

text \<open>
  C7. For a loaded sample with a decoded buffer, played on an audio context: when the
  trim duration is at least the buffer's duration, \<open>play\<close> starts the source with
  \<open>start(0)\<close>, the whole buffer, and passes no offset and duration; a call
  \<open>start(0, offset, duration)\<close> is made exactly when the trim duration lies strictly
  between 0 and the buffer's duration, and then with the sample's start offset and
  duration. For a ten second buffer and trim positions 0 and w on a surface of width
  w > 0, the whole buffer is played.
\<close>

theorem full_extent_plays_whole_buffer:
  assumes "loaded s" and "decodedBuffer s = Some b"
  shows "(duration s \<ge> audioDuration b \<longrightarrow>
            playEffects (play s (Some c) dest) =
              [SourceConnect (case dest of Some n \<Rightarrow> n | None \<Rightarrow> ContextDestination),
               SourceStart 0 None, ConsoleLog (PlayingFull (name s))])
       \<and> (\<forall>when offset dur.
            SourceStart when (Some (offset, dur)) \<in> set (playEffects (play s (Some c) dest))
            \<longrightarrow> 0 < duration s \<and> duration s < audioDuration b
                \<and> when = 0 \<and> offset = startOffset s \<and> dur = duration s)
       \<and> (0 < duration s \<and> duration s < audioDuration b \<longrightarrow>
            SourceStart 0 (Some (startOffset s, duration s))
              \<in> set (playEffects (play s (Some c) dest)))
       \<and> (audioDuration b = 10 \<and> w > 0 \<longrightarrow>
            playEffects (play (SoundSample_setTrimPositions s 0 w w) (Some c) dest) =
              [SourceConnect (case dest of Some n \<Rightarrow> n | None \<Rightarrow> ContextDestination),
               SourceStart 0 None, ConsoleLog (PlayingFull (name s))])"
proof -
  have a: "duration s \<ge> audioDuration b \<longrightarrow>
            playEffects (play s (Some c) dest) =
              [SourceConnect (case dest of Some n \<Rightarrow> n | None \<Rightarrow> ContextDestination),
               SourceStart 0 None, ConsoleLog (PlayingFull (name s))]"
    by (simp add: play_loaded [OF assms] playEffects_def Let_def)
  have b: "\<forall>when offset dur.
            SourceStart when (Some (offset, dur)) \<in> set (playEffects (play s (Some c) dest))
            \<longrightarrow> 0 < duration s \<and> duration s < audioDuration b
                \<and> when = 0 \<and> offset = startOffset s \<and> dur = duration s"
    by (simp add: play_loaded [OF assms] playEffects_def Let_def)
  have c: "0 < duration s \<and> duration s < audioDuration b \<longrightarrow>
            SourceStart 0 (Some (startOffset s, duration s))
              \<in> set (playEffects (play s (Some c) dest))"
    by (simp add: play_loaded [OF assms] playEffects_def Let_def)
  have d: "audioDuration b = 10 \<and> w > 0 \<longrightarrow>
            playEffects (play (SoundSample_setTrimPositions s 0 w w) (Some c) dest) =
              [SourceConnect (case dest of Some n \<Rightarrow> n | None \<Rightarrow> ContextDestination),
               SourceStart 0 None, ConsoleLog (PlayingFull (name s))]"
  proof
    assume h: "audioDuration b = 10 \<and> w > 0"
    let ?s = "SoundSample_setTrimPositions s 0 w w"
    have l: "loaded ?s" "decodedBuffer ?s = Some b" "name ?s = name s"
      using assms h by (simp_all add: SoundSample_setTrimPositions_def Let_def)
    have dur: "duration ?s = 10"
      using assms h by (simp add: SoundSample_setTrimPositions_def Let_def)
    show "playEffects (play ?s (Some c) dest) =
              [SourceConnect (case dest of Some n \<Rightarrow> n | None \<Rightarrow> ContextDestination),
               SourceStart 0 None, ConsoleLog (PlayingFull (name s))]"
      using h by (simp add: play_loaded [OF l(1,2)] playEffects_def Let_def dur l(3))
  qed
  from a b c d show ?thesis by blast
qed

theorem full_extent_plays_whole_buffer_witness:
  "loaded tenSecondSample
   \<and> decodedBuffer tenSecondSample
       = Some \<lparr>audioDuration = 10, sampleRate = 44100, channels = [[0, 1/2, -1, 1/4]]\<rparr>
   \<and> duration tenSecondSample
       \<ge> audioDuration \<lparr>audioDuration = 10, sampleRate = 44100, channels = [[0, 1/2, -1, 1/4]]\<rparr>
   \<and> playEffects (play tenSecondSample (Some AudioContext) (Some MasterGain))
       = [SourceConnect MasterGain, SourceStart 0 None, ConsoleLog (PlayingFull ''Snare'')]
   \<and> playEffects (play (SoundSample_setTrimPositions tenSecondSample 0 800 800)
        (Some AudioContext) (Some MasterGain))
       = [SourceConnect MasterGain, SourceStart 0 None, ConsoleLog (PlayingFull ''Snare'')]"
proof -
  have h: "loaded tenSecondSample"
    "decodedBuffer tenSecondSample
       = Some \<lparr>audioDuration = 10, sampleRate = 44100, channels = [[0, 1/2, -1, 1/4]]\<rparr>"
    by (simp_all add: tenSecondSample_def loadSucceeded_def SoundSample_new_def)
  have g: "duration tenSecondSample
       \<ge> audioDuration \<lparr>audioDuration = 10, sampleRate = 44100, channels = [[0, 1/2, -1, 1/4]]\<rparr>"
    "name tenSecondSample = ''Snare''"
    by (simp_all add: tenSecondSample_def loadSucceeded_def SoundSample_new_def)
  from full_extent_plays_whole_buffer [OF h, of AudioContext "Some MasterGain" 800] h g
  show ?thesis by simp
qed

section \<open>Trimming an unloaded slot\<close>

lemma exampleEngine_samples:
  "sampleAt exampleEngine 3 = Some ((SoundSample_new ''hat.wav'' ''Hat'' 3)\<lparr>loading := True\<rparr>)"
  "sampleAt exampleEngine 5 = None"
  "sampleAt exampleEngine 16 = None"
  "sampleAt exampleEngine (- 1) = None"
  "padCount exampleEngine = 16"
  by (simp_all add: sampleAt_def exampleEngine_def onPlay_def SamplerEngine_new_def
      nth_list_update nth_replicate)

text \<open>
  C9. For every index whose slot holds no sample (an empty slot, or an index outside the
  array) or a sample that is not loaded, \<open>updateTrimBars\<close> returns the engine as it was,
  every slot with its trim positions, start offset and duration included, and has no
  effect: no console output, no subscriber call, no error.
\<close>

theorem updateTrimBars_unloaded_noop:
  assumes "sampleAt e i = None \<or> (\<exists>s. sampleAt e i = Some s \<and> \<not> isLoaded s)"
  shows "updateTrimBars e i leftX rightX canvasWidth = (e, [])"
  using assms by (auto simp add: updateTrimBars_def)

theorem updateTrimBars_unloaded_noop_witness:
  "sampleAt exampleEngine 5 = None
   \<and> updateTrimBars exampleEngine 5 200 600 800 = (exampleEngine, [])
   \<and> sampleAt exampleEngine 3 = Some ((SoundSample_new ''hat.wav'' ''Hat'' 3)\<lparr>loading := True\<rparr>)
   \<and> \<not> isLoaded ((SoundSample_new ''hat.wav'' ''Hat'' 3)\<lparr>loading := True\<rparr>)
   \<and> updateTrimBars exampleEngine 3 200 600 800 = (exampleEngine, [])"
proof -
  have n: "\<not> isLoaded ((SoundSample_new ''hat.wav'' ''Hat'' 3)\<lparr>loading := True\<rparr>)"
    by (simp add: isLoaded_def SoundSample_new_def)
  have h5: "sampleAt exampleEngine 5 = None
      \<or> (\<exists>s. sampleAt exampleEngine 5 = Some s \<and> \<not> isLoaded s)"
    by (simp add: exampleEngine_samples)
  have h3: "sampleAt exampleEngine 3 = None
      \<or> (\<exists>s. sampleAt exampleEngine 3 = Some s \<and> \<not> isLoaded s)"
    using n by (simp add: exampleEngine_samples)
  from updateTrimBars_unloaded_noop [OF h5, of 200 600 800]
    updateTrimBars_unloaded_noop [OF h3, of 200 600 800] n
  show ?thesis by (simp add: exampleEngine_samples)
qed

section \<open>Playing an invalid or unloaded pad\<close>

text \<open>
  C10. For every index below 0 or at least \<open>padCount\<close>, and for every other index whose
  slot holds no sample or a sample that is not loaded, \<open>playSound\<close> returns normally
  (it does not raise), leaves the engine unchanged, and its only effect is one console
  warning: no source is started and no play subscriber is called.
\<close>

theorem playSound_invalid_or_unloaded:
  assumes "i < 0 \<or> i \<ge> int (padCount e) \<or> sampleAt e i = None
           \<or> (\<exists>s. sampleAt e i = Some s \<and> \<not> isLoaded s)"
  shows "playSound e i =
           Inr (e, [ConsoleWarn (if i < 0 \<or> i \<ge> int (padCount e)
                                 then InvalidIndex i else NoSoundLoadedAtPad i)])"
  using assms by (auto simp add: playSound_def)

theorem playSound_invalid_or_unloaded_witness:
  "(16::int) \<ge> int (padCount exampleEngine)
   \<and> playSound exampleEngine 16 = Inr (exampleEngine, [ConsoleWarn (InvalidIndex 16)])
   \<and> sampleAt exampleEngine 5 = None
   \<and> playSound exampleEngine 5 = Inr (exampleEngine, [ConsoleWarn (NoSoundLoadedAtPad 5)])"
proof -
  have h16: "(16::int) < 0 \<or> 16 \<ge> int (padCount exampleEngine)
      \<or> sampleAt exampleEngine 16 = None
      \<or> (\<exists>s. sampleAt exampleEngine 16 = Some s \<and> \<not> isLoaded s)"
    by (simp add: exampleEngine_samples)
  have h5: "(5::int) < 0 \<or> 5 \<ge> int (padCount exampleEngine)
      \<or> sampleAt exampleEngine 5 = None
      \<or> (\<exists>s. sampleAt exampleEngine 5 = Some s \<and> \<not> isLoaded s)"
    by (simp add: exampleEngine_samples)
  from playSound_invalid_or_unloaded [OF h16] playSound_invalid_or_unloaded [OF h5]
  show ?thesis by (simp add: exampleEngine_samples)
qed

text \<open>For comparison, a loaded pad is played and its subscribers are called.\<close>

lemma playSound_loaded_example:
  "playSound exampleEngine 2 =
     Inr (exampleEngine,
       [SourceConnect MasterGain, SourceStart 0 None, ConsoleLog (PlayingFull ''Snare''),
        Callback 7 2])"
  by (simp add: playSound_def sampleAt_def exampleEngine_def onPlay_def SamplerEngine_new_def
      nth_list_update nth_replicate isLoaded_def tenSecondSample_def loadSucceeded_def
      SoundSample_new_def play_def emitPlay_def Let_def)

section \<open>Peak extraction\<close>

lemma Max_insert_insert:
  fixes p v :: real
  assumes "finite S"
  shows "Max (insert p (insert v S)) = Max (insert (max p v) S)"
proof (cases "S = {}")
  case True
  then show ?thesis by (simp add: insert_commute)
next
  case False
  with assms show ?thesis by (simp add: max.assoc)
qed

lemma stride_finite:
  assumes "0 < step"
  shows "finite {k. j + k * step < (m::nat)}"
proof (rule finite_subset)
  show "{k. j + k * step < m} \<subseteq> {..<m}"
  proof
    fix k assume "k \<in> {k. j + k * step < m}"
    then have "j + k * step < m" by simp
    moreover have "k \<le> k * step" using assms by (cases step) simp_all
    ultimately have "k < m" by linarith
    then show "k \<in> {..<m}" by simp
  qed
qed simp

lemma stride_unfold:
  assumes "j < (m::nat)"
  shows "{k. j + k * step < m} = insert 0 (Suc ` {k. j + step + k * step < m})"
proof (rule set_eqI)
  fix k
  show "k \<in> {k. j + k * step < m} \<longleftrightarrow> k \<in> insert 0 (Suc ` {k. j + step + k * step < m})"
  proof (cases k)
    case 0
    with assms show ?thesis by simp
  next
    case (Suc n)
    then show ?thesis by (auto simp add: algebra_simps)
  qed
qed

lemma peakLoop_result:
  assumes "0 < step"
  shows "peakLoop channelData step endIdx j peak =
     Some (Max (insert peak ((\<lambda>k. \<bar>channelData ! (j + k * step)\<bar>)
            ` {k. j + k * step < min endIdx (length channelData)})))"
proof (induction "min endIdx (length channelData) - j" arbitrary: j peak rule: less_induct)
  case less
  let ?m = "min endIdx (length channelData)"
  show ?case
  proof (cases "j < ?m")
    case False
    then have e: "{k. j + k * step < ?m} = {}" by auto
    from False have "peakLoop channelData step endIdx j peak = Some peak"
      by (subst peakLoop.simps) auto
    then show ?thesis by (simp only: e) simp
  next
    case True
    let ?v = "\<bar>channelData ! j\<bar>"
    let ?K = "{k. j + step + k * step < ?m}"
    let ?S = "(\<lambda>k. \<bar>channelData ! (j + step + k * step)\<bar>) ` ?K"
    have fin: "finite ?S" using stride_finite [OF assms] by simp
    have dec: "?m - (j + step) < ?m - j" using True assms by linarith
    have step1: "peakLoop channelData step endIdx j peak =
        peakLoop channelData step endIdx (j + step) (max peak ?v)"
      using True by (subst peakLoop.simps) (simp add: max_def)
    have img: "(\<lambda>k. \<bar>channelData ! (j + k * step)\<bar>) ` {k. j + k * step < ?m} = insert ?v ?S"
      unfolding stride_unfold [OF True] by (simp add: image_image algebra_simps)
    show ?thesis
      unfolding step1 less.hyps [OF dec] img Max_insert_insert [OF fin] ..
  qed
qed

lemma peakLoop_columnPeak:
  "0 < step \<Longrightarrow> peakLoop channelData step endIdx start 0 = Some (columnPeak channelData step start endIdx)"
  by (simp add: peakLoop_result columnPeak_def)

lemma peaksLoop_result:
  assumes "0 < step"
  shows "peaksLoop channelData w sampleSize step i ps =
     Some (ps @ map (\<lambda>c. columnPeak channelData step (c * sampleSize) (c * sampleSize + sampleSize)) [i..<w])"
proof (induction "w - i" arbitrary: i ps)
  case 0
  then have "\<not> i < w" by simp
  then show ?case by (subst peaksLoop.simps) simp
next
  case (Suc n)
  then have lt: "i < w" and n: "n = w - Suc i" by simp_all
  have "peaksLoop channelData w sampleSize step i ps =
      peaksLoop channelData w sampleSize step (Suc i)
        (ps @ [columnPeak channelData step (i * sampleSize) (i * sampleSize + sampleSize)])"
    using lt by (subst peaksLoop.simps) (simp add: peakLoop_columnPeak [OF assms] Let_def)
  also have "\<dots> = Some ((ps @ [columnPeak channelData step (i * sampleSize) (i * sampleSize + sampleSize)])
       @ map (\<lambda>c. columnPeak channelData step (c * sampleSize) (c * sampleSize + sampleSize)) [Suc i..<w])"
    by (rule Suc.hyps(1) [OF n])
  finally show ?case using lt by (simp add: upt_conv_Cons)
qed


lemma columnPeak_nonneg:
  assumes "0 < step"
  shows "0 \<le> columnPeak channelData step start endIdx"
  unfolding columnPeak_def
  by (rule Max_ge) (simp_all add: stride_finite [OF assms])

lemma columnPeak_empty: "columnPeak channelData step start start = 0"
proof -
  have "{k. start + k * step < min start (length channelData)} = {}" by auto
  then show ?thesis by (simp add: columnPeak_def)
qed

lemma columnPeak_nonempty:
  assumes "0 < step" and "start < endIdx" and "endIdx \<le> length channelData"
  shows "columnPeak channelData step start endIdx =
     Max ((\<lambda>k. \<bar>channelData ! (start + k * step)\<bar>) ` {k. start + k * step < endIdx})"
proof -
  let ?S = "(\<lambda>k. \<bar>channelData ! (start + k * step)\<bar>) ` {k. start + k * step < endIdx}"
  have m: "min endIdx (length channelData) = endIdx" using assms(3) by simp
  have fin: "finite ?S" using stride_finite [OF assms(1)] by simp
  have "\<bar>channelData ! start\<bar> \<in> ?S" using assms(2) by (auto intro!: image_eqI [where x = 0])
  then have ne: "?S \<noteq> {}" and "\<bar>channelData ! start\<bar> \<le> Max ?S"
    using fin by (auto intro: Max_ge)
  then have "0 \<le> Max ?S" by linarith
  then show ?thesis
    unfolding columnPeak_def m using fin ne by (simp add: max_def)
qed

lemma getPeaks_result:
  assumes "decodedAudioBuffer d = Some b" and "channels b \<noteq> []"
    and "step = (case sampleStep d of
                   Some st \<Rightarrow> if st \<noteq> 0 then st
                              else max 1 (length (channels b ! 0) div displayWidth d div 10)
                 | None \<Rightarrow> max 1 (length (channels b ! 0) div displayWidth d div 10))"
    and "sampleSize = length (channels b ! 0) div displayWidth d"
  shows "0 < step"
    and "getPeaks d = Some (Inr (d\<lparr>peaks :=
            map (\<lambda>c. columnPeak (channels b ! 0) step (c * sampleSize) (c * sampleSize + sampleSize))
              [0..<displayWidth d]\<rparr>))"
proof -
  have "0 < max (1::nat) n" for n by (simp add: max_def)
  then show pos: "0 < step" unfolding assms(3) by (simp split: option.split)
  have cd: "getChannelData b 0 = Inr (channels b ! 0)"
    using assms(2) by (simp add: getChannelData_def)
  show "getPeaks d = Some (Inr (d\<lparr>peaks :=
            map (\<lambda>c. columnPeak (channels b ! 0) step (c * sampleSize) (c * sampleSize + sampleSize))
              [0..<displayWidth d]\<rparr>))"
  proof -
    have "getPeaks d = map_option (\<lambda>ps. Inr (d\<lparr>peaks := ps\<rparr>))
        (peaksLoop (channels b ! 0) (displayWidth d) sampleSize step 0 [])"
      by (simp add: getPeaks_def Let_def assms(1) cd assms(3,4))
    then show ?thesis
      unfolding peaksLoop_result [OF pos] by simp
  qed
qed

text \<open>
  C3. For every drawer that holds a decoded buffer (which has at least one channel) and
  has a display width above 0, \<open>getPeaks\<close> returns, and stores exactly as many peaks as
  the display is wide. With \<open>sampleSize\<close> the sample count of the first channel divided
  by the width, rounded down, and \<open>step\<close> the given step or, without one,
  \<open>max 1 (sampleSize div 10)\<close>, peak i is the column peak of the range from
  \<open>i * sampleSize\<close> to \<open>(i + 1) * sampleSize\<close>, cut at the sample count: the maximum
  absolute value of the first channel's samples at the indices \<open>start, start + step, ...\<close>
  in that range (the range is not empty when \<open>sampleSize\<close> is above 0). Every peak is
  at least 0, and when there are fewer samples than columns every peak is 0.
\<close>

theorem getPeaks_column_maxima:
  assumes "decodedAudioBuffer d = Some b" and "channels b \<noteq> []" and "0 < displayWidth d"
  shows "(let channelData = channels b ! 0;
              totalSamples = length channelData;
              sampleSize = totalSamples div displayWidth d;
              step = (case sampleStep d of
                        Some st \<Rightarrow> if st \<noteq> 0 then st else max 1 (sampleSize div 10)
                      | None \<Rightarrow> max 1 (sampleSize div 10))
          in \<exists>ps. getPeaks d = Some (Inr (d\<lparr>peaks := ps\<rparr>))
               \<and> length ps = displayWidth d
               \<and> (\<forall>i<displayWidth d.
                     ps ! i = columnPeak channelData step (i * sampleSize) ((i + 1) * sampleSize)
                   \<and> (0 < sampleSize \<longrightarrow>
                        ps ! i = Max ((\<lambda>k. \<bar>channelData ! (i * sampleSize + k * step)\<bar>)
                                   ` {k. i * sampleSize + k * step < (i + 1) * sampleSize})))
               \<and> (\<forall>p\<in>set ps. 0 \<le> p)
               \<and> (totalSamples < displayWidth d \<longrightarrow> (\<forall>p\<in>set ps. p = 0)))"
proof -
  define channelData where "channelData = channels b ! 0"
  define sampleSize where "sampleSize = length channelData div displayWidth d"
  define step where "step = (case sampleStep d of
                        Some st \<Rightarrow> if st \<noteq> 0 then st else max 1 (sampleSize div 10)
                      | None \<Rightarrow> max 1 (sampleSize div 10))"
  define ps where "ps = map (\<lambda>c. columnPeak channelData step (c * sampleSize)
                                 (c * sampleSize + sampleSize)) [0..<displayWidth d]"
  note r = getPeaks_result [OF assms(1,2) step_def [unfolded sampleSize_def channelData_def]
      sampleSize_def [unfolded channelData_def]]
  have pos: "0 < step" by (rule r(1))
  have g: "getPeaks d = Some (Inr (d\<lparr>peaks := ps\<rparr>))"
    unfolding ps_def channelData_def by (rule r(2))
  have len: "length ps = displayWidth d" by (simp add: ps_def)
  have nth: "ps ! i = columnPeak channelData step (i * sampleSize) ((i + 1) * sampleSize)"
    if "i < displayWidth d" for i
    using that by (simp add: ps_def add.commute)
  have mx: "ps ! i = Max ((\<lambda>k. \<bar>channelData ! (i * sampleSize + k * step)\<bar>)
                          ` {k. i * sampleSize + k * step < (i + 1) * sampleSize})"
    if "i < displayWidth d" and "0 < sampleSize" for i
  proof -
    have "(i + 1) * sampleSize \<le> displayWidth d * sampleSize"
      using that(1) by (intro mult_le_mono1) simp
    also have "\<dots> \<le> length channelData"
      by (simp add: sampleSize_def)
    finally have le: "(i + 1) * sampleSize \<le> length channelData" .
    have lt: "i * sampleSize < (i + 1) * sampleSize" using that(2) by simp
    show ?thesis
      unfolding nth [OF that(1)] by (rule columnPeak_nonempty [OF pos lt le])
  qed
  have nonneg: "\<forall>p\<in>set ps. 0 \<le> p"
    by (auto simp add: ps_def columnPeak_nonneg [OF pos])
  have zero: "\<forall>p\<in>set ps. p = 0" if "length channelData < displayWidth d"
  proof -
    from that have "sampleSize = 0" by (simp add: sampleSize_def)
    then show ?thesis by (auto simp add: ps_def columnPeak_empty)
  qed
  have "getPeaks d = Some (Inr (d\<lparr>peaks := ps\<rparr>))
      \<and> length ps = displayWidth d
      \<and> (\<forall>i<displayWidth d.
            ps ! i = columnPeak channelData step (i * sampleSize) ((i + 1) * sampleSize)
          \<and> (0 < sampleSize \<longrightarrow>
               ps ! i = Max ((\<lambda>k. \<bar>channelData ! (i * sampleSize + k * step)\<bar>)
                          ` {k. i * sampleSize + k * step < (i + 1) * sampleSize})))
      \<and> (\<forall>p\<in>set ps. 0 \<le> p)
      \<and> (length channelData < displayWidth d \<longrightarrow> (\<forall>p\<in>set ps. p = 0))"
    using g len nth mx nonneg zero by blast
  then show ?thesis
    unfolding Let_def channelData_def [symmetric] sampleSize_def [symmetric] step_def [symmetric]
    by blast
qed


lemmas peaks_eval = getPeaks_def getChannelData_def exampleDrawer_def exampleBuffer_def
  peaksLoop.simps peakLoop.simps Let_def

text \<open>
  The loops run on concrete buffers: two columns over four samples, more columns than
  samples, and a step of 3 that skips the largest sample.
\<close>

lemma getPeaks_example:
  "getPeaks exampleDrawer = Some (Inr (exampleDrawer\<lparr>peaks := [1/2, 1]\<rparr>))"
  by (simp add: peaks_eval)

lemma getPeaks_example_wide:
  "getPeaks (exampleDrawer\<lparr>displayWidth := 6\<rparr>)
     = Some (Inr (exampleDrawer\<lparr>displayWidth := 6, peaks := [0, 0, 0, 0, 0, 0]\<rparr>))"
  by (simp add: peaks_eval)

lemma getPeaks_example_step:
  "getPeaks (exampleDrawer\<lparr>displayWidth := 1, sampleStep := Some 3\<rparr>)
     = Some (Inr (exampleDrawer\<lparr>displayWidth := 1, sampleStep := Some 3, peaks := [1/4]\<rparr>))"
  by (simp add: peaks_eval)

theorem getPeaks_column_maxima_witness:
  "decodedAudioBuffer exampleDrawer = Some exampleBuffer \<and> channels exampleBuffer \<noteq> []
   \<and> 0 < displayWidth exampleDrawer
   \<and> (\<exists>ps. getPeaks exampleDrawer = Some (Inr (exampleDrawer\<lparr>peaks := ps\<rparr>))
         \<and> length ps = 2 \<and> (\<forall>p\<in>set ps. 0 \<le> p))"
proof -
  have h: "decodedAudioBuffer exampleDrawer = Some exampleBuffer" "channels exampleBuffer \<noteq> []"
    "0 < displayWidth exampleDrawer"
    by (simp_all add: exampleDrawer_def exampleBuffer_def)
  have w: "displayWidth exampleDrawer = 2" by (simp add: exampleDrawer_def)
  from getPeaks_column_maxima [OF h] obtain ps where
    "getPeaks exampleDrawer = Some (Inr (exampleDrawer\<lparr>peaks := ps\<rparr>))"
    "length ps = displayWidth exampleDrawer" "\<forall>p\<in>set ps. 0 \<le> p"
    unfolding Let_def by blast
  with h w show ?thesis by auto
qed


end
